theory Spec2Isabelle
  imports Main
begin

section \<open>The High Card game: data model\<close>

text \<open>
  The Python exceptions that the modelled code can let escape. \<open>ValueError\<close> is raised by
  the built-ins \<open>max\<close>, \<open>min\<close> and \<open>list.remove\<close>, \<open>IndexError\<close> by
  \<open>random.choice\<close>, \<open>EOFError\<close> by \<open>input\<close> at the end of standard input and
  \<open>AttributeError\<close> by a method call on \<open>None\<close> and \<open>KeyError\<close> by a dictionary
  subscription with a missing key. \<open>InvalidState\<close> is the condition the specification
  names for a strategy invoked on an empty hand; no path of the source raises it.
\<close>

datatype py_error =
  ValueError | IndexError | EOFError | AttributeError | KeyError | InvalidState

text \<open>Class \<open>Player\<close>: a name, a score and the list of numbers still in hand.\<close>

record player =
  name :: string
  score :: int
  numbers :: "int list"

text \<open>\<open>Player.__init__\<close>: score 0 and the numbers \<open>list(range(1, 14))\<close>.\<close>

definition Player :: "string \<Rightarrow> player" where
  "Player nm = \<lparr>name = nm, score = 0, numbers = [1..13]\<rparr>"

text \<open>
  The built-in \<open>list.remove(x)\<close>: deletes the first element equal to \<open>x\<close> and raises
  \<open>ValueError\<close> when there is none.
\<close>

fun list_remove :: "int list \<Rightarrow> int \<Rightarrow> py_error + int list" where
  "list_remove [] x = Inl ValueError"
| "list_remove (y # ys) x =
     (if y = x then Inr ys
      else (case list_remove ys x of Inl e \<Rightarrow> Inl e | Inr zs \<Rightarrow> Inr (y # zs)))"

text \<open>
  \<open>Player.remove_number\<close>: the membership test guards the call of \<open>list.remove\<close>; the
  result is the returned flag together with the updated player.
\<close>

definition remove_number :: "player \<Rightarrow> int \<Rightarrow> py_error + (bool \<times> player)" where
  "remove_number p number =
     (if number \<in> set (numbers p) then
        (case list_remove (numbers p) number of
           Inl e \<Rightarrow> Inl e
         | Inr ns \<Rightarrow> Inr (True, p\<lparr>numbers := ns\<rparr>))
      else Inr (False, p))"

section \<open>Strategies\<close>

text \<open>
  The built-ins \<open>max\<close> and \<open>min\<close> on a list: \<open>ValueError\<close> on the empty list, otherwise a
  left-to-right scan that replaces the running result only by a strictly larger
  (respectively smaller) item.
\<close>

fun py_max :: "int list \<Rightarrow> py_error + int" where
  "py_max [] = Inl ValueError"
| "py_max (x # xs) = Inr (foldl (\<lambda>m y. if y > m then y else m) x xs)"

fun py_min :: "int list \<Rightarrow> py_error + int" where
  "py_min [] = Inl ValueError"
| "py_min (x # xs) = Inr (foldl (\<lambda>m y. if y < m then y else m) x xs)"

text \<open>
  The hidden generator of module \<open>random\<close> is an endless stream of draws; a call of
  \<open>random.choice\<close> reads the first draw, reduced below the length of the sequence (so
  every index can come up), and leaves the rest. The empty sequence raises
  \<open>IndexError\<close>.
\<close>

type_synonym rng = "nat \<Rightarrow> nat"

definition random_choice :: "rng \<Rightarrow> int list \<Rightarrow> py_error + (int \<times> rng)" where
  "random_choice gen seq =
     (if seq = [] then Inl IndexError
      else Inr (seq ! (gen 0 mod length seq), (\<lambda>i. gen (Suc i))))"

text \<open>
  The four concrete strategy classes. Their \<open>play\<close> methods are the same in
  \<open>game.py\<close> and in \<open>strategies/sample_strategies.py\<close>.
\<close>

datatype strategy = RandomStrategy | HighCardStrategy | LowCardStrategy | StrategicPlay

fun strategy_name :: "strategy \<Rightarrow> string" where
  "strategy_name RandomStrategy = ''Random''"
| "strategy_name HighCardStrategy = ''High Card''"
| "strategy_name LowCardStrategy = ''Low Card''"
| "strategy_name StrategicPlay = ''Strategic Play''"

definition RandomStrategy_play :: "rng \<Rightarrow> int list \<Rightarrow> int list \<Rightarrow> py_error + (int \<times> rng)" where
  "RandomStrategy_play gen player_numbers opponent_numbers = random_choice gen player_numbers"

definition HighCardStrategy_play :: "int list \<Rightarrow> int list \<Rightarrow> py_error + int" where
  "HighCardStrategy_play player_numbers opponent_numbers = py_max player_numbers"

definition LowCardStrategy_play :: "int list \<Rightarrow> int list \<Rightarrow> py_error + int" where
  "LowCardStrategy_play player_numbers opponent_numbers = py_min player_numbers"

definition StrategicPlay_play :: "int list \<Rightarrow> int list \<Rightarrow> py_error + int" where
  "StrategicPlay_play player_numbers opponent_numbers =
     (if opponent_numbers = [] then py_max player_numbers
      else
        (case py_max opponent_numbers of
           Inl e \<Rightarrow> Inl e
         | Inr opponent_highest \<Rightarrow>
             (let winning_cards = filter (\<lambda>card. card > opponent_highest) player_numbers
              in if winning_cards \<noteq> [] then py_min winning_cards
                 else py_min player_numbers)))"

text \<open>
  The method call \<open>strategy.play(player_numbers, opponent_numbers)\<close>, dispatched on the
  class of the strategy object. Only the random strategy reads the generator.
\<close>

definition with_rng :: "rng \<Rightarrow> py_error + int \<Rightarrow> py_error + (int \<times> rng)" where
  "with_rng gen r = (case r of Inl e \<Rightarrow> Inl e | Inr c \<Rightarrow> Inr (c, gen))"

fun play :: "strategy \<Rightarrow> rng \<Rightarrow> int list \<Rightarrow> int list \<Rightarrow> py_error + (int \<times> rng)" where
  "play RandomStrategy gen own opp = RandomStrategy_play gen own opp"
| "play HighCardStrategy gen own opp = with_rng gen (HighCardStrategy_play own opp)"
| "play LowCardStrategy gen own opp = with_rng gen (LowCardStrategy_play own opp)"
| "play StrategicPlay gen own opp = with_rng gen (StrategicPlay_play own opp)"

text \<open>The number a call of \<open>play\<close> returns, without the generator.\<close>

definition played :: "py_error + (int \<times> rng) \<Rightarrow> py_error + int" where
  "played r = (case r of Inl e \<Rightarrow> Inl e | Inr (c, gen) \<Rightarrow> Inr c)"

section \<open>The round engine and the match\<close>

text \<open>
  Class \<open>Game\<close>. The dictionary \<open>strategies\<close> maps the selector keys to the strategy
  objects; \<open>computer_strategy\<close> is \<open>None\<close> until a strategy has been selected.
\<close>

record game =
  player :: player
  computer :: player
  total_turns :: int
  current_turn :: int
  computer_strategy :: "strategy option"
  strategies :: "string \<rightharpoonup> strategy"

definition Game :: game where
  "Game =
     \<lparr>player = Player ''You'', computer = Player ''Computer'', total_turns = 13,
      current_turn = 1, computer_strategy = None,
      strategies = map_of [(''1'', RandomStrategy), (''2'', HighCardStrategy),
                           (''3'', LowCardStrategy), (''4'', StrategicPlay)]\<rparr>"

text \<open>
  Standard input is the list of the lines still to be read; \<open>input\<close> takes the first one
  and raises \<open>EOFError\<close> when none is left. What is printed is not modelled, except for
  the verdict of \<open>_end_game\<close>.
\<close>

type_synonym stdin = "string list"


text \<open>The loop of \<open>_select_simulation_strategies\<close> that reads one valid key.\<close>

fun read_key :: "game \<Rightarrow> stdin \<Rightarrow> py_error + (string \<times> stdin)" where
  "read_key g [] = Inl EOFError"
| "read_key g (choice # rest) =
     (if strategies g choice \<noteq> None then Inr (choice, rest) else read_key g rest)"

text \<open>The subscription \<open>self.strategies[key]\<close>.\<close>

definition strategies_getitem :: "game \<Rightarrow> string \<Rightarrow> py_error + strategy" where
  "strategies_getitem g key = (case strategies g key of None \<Rightarrow> Inl KeyError | Some s \<Rightarrow> Inr s)"

text \<open>\<open>Game._select_simulation_strategies\<close>: two keys are read, then both are looked up.\<close>

definition select_simulation_strategies ::
    "game \<Rightarrow> stdin \<Rightarrow> py_error + (strategy \<times> strategy \<times> stdin)" where
  "select_simulation_strategies g inp =
     (case read_key g inp of
        Inl e \<Rightarrow> Inl e
      | Inr (choice1, inp1) \<Rightarrow>
          (case read_key g inp1 of
             Inl e \<Rightarrow> Inl e
           | Inr (choice2, inp2) \<Rightarrow>
               (case strategies_getitem g choice1 of
                  Inl e \<Rightarrow> Inl e
                | Inr strategy1 \<Rightarrow>
                    (case strategies_getitem g choice2 of
                       Inl e \<Rightarrow> Inl e
                     | Inr strategy2 \<Rightarrow> Inr (strategy1, strategy2, inp2)))))"

text \<open>
  \<open>Game._get_player_choice\<close>. The conversion \<open>int(...)\<close> of a line is the parameter
  \<open>py_int\<close>, with \<open>None\<close> where Python raises \<open>ValueError\<close>. The \<open>try\<close> block encloses
  the call of \<open>remove_number\<close> as well, so a \<open>ValueError\<close> from there would also lead to
  a new prompt. A valid number is removed from the human's hand here.
\<close>

fun get_player_choice ::
    "(string \<Rightarrow> int option) \<Rightarrow> game \<Rightarrow> stdin \<Rightarrow> py_error + (int \<times> game \<times> stdin)" where
  "get_player_choice py_int g [] = Inl EOFError"
| "get_player_choice py_int g (line # rest) =
     (case py_int line of
        None \<Rightarrow> get_player_choice py_int g rest
      | Some choice \<Rightarrow>
          (case remove_number (player g) choice of
             Inl e \<Rightarrow> (if e = ValueError then get_player_choice py_int g rest else Inl e)
           | Inr (ok, p) \<Rightarrow>
               (if ok then Inr (choice, g\<lparr>player := p\<rparr>, rest)
                else get_player_choice py_int g rest)))"

text \<open>
  \<open>Game._update_game_state\<close>: the comparison and the score, then the removal of both
  played numbers. At every call site the two players are different objects.
\<close>

definition update_game_state ::
    "int \<Rightarrow> int \<Rightarrow> player \<Rightarrow> player \<Rightarrow> py_error + (player \<times> player)" where
  "update_game_state player1_choice player2_choice player1 player2 =
     (let (p1, p2) =
        (if player1_choice > player2_choice then (player1\<lparr>score := score player1 + 1\<rparr>, player2)
         else if player2_choice > player1_choice then (player1, player2\<lparr>score := score player2 + 1\<rparr>)
         else (player1, player2))
      in (case remove_number p1 player1_choice of
            Inl e \<Rightarrow> Inl e
          | Inr (ok1, p1') \<Rightarrow>
              (case remove_number p2 player2_choice of
                 Inl e \<Rightarrow> Inl e
               | Inr (ok2, p2') \<Rightarrow> Inr (p1', p2'))))"

text \<open>\<open>Game._end_game\<close>: which of the three closing lines is printed.\<close>

datatype verdict = WinsTheGame string | TieGame

definition end_game :: "player \<Rightarrow> player \<Rightarrow> verdict" where
  "end_game player1 player2 =
     (if score player1 > score player2 then WinsTheGame (name player1)
      else if score player2 > score player1 then WinsTheGame (name player2)
      else TieGame)"

text \<open>A \<open>for\<close> loop over a list of values; an exception in the body ends it.\<close>

fun for_each :: "'a list \<Rightarrow> ('a \<Rightarrow> 's \<Rightarrow> py_error + 's) \<Rightarrow> 's \<Rightarrow> py_error + 's" where
  "for_each [] body s = Inr s"
| "for_each (x # xs) body s =
     (case body x s of Inl e \<Rightarrow> Inl e | Inr s' \<Rightarrow> for_each xs body s')"

text \<open>The body of the loop of \<open>Game.play\<close>, on the game, standard input and the generator.\<close>

definition play_turn ::
    "(string \<Rightarrow> int option) \<Rightarrow> game \<times> stdin \<times> rng \<Rightarrow> py_error + (game \<times> stdin \<times> rng)" where
  "play_turn py_int st =
     (case st of (g, inp, gen) \<Rightarrow>
        (case get_player_choice py_int g inp of
           Inl e \<Rightarrow> Inl e
         | Inr (player_choice, g1, inp1) \<Rightarrow>
             (case computer_strategy g1 of
                None \<Rightarrow> Inl AttributeError
              | Some s \<Rightarrow>
                  (case play s gen (numbers (computer g1)) (numbers (player g1)) of
                     Inl e \<Rightarrow> Inl e
                   | Inr (computer_choice, gen1) \<Rightarrow>
                       (case update_game_state player_choice computer_choice
                               (player g1) (computer g1) of
                          Inl e \<Rightarrow> Inl e
                        | Inr (p, c) \<Rightarrow>
                            Inr (g1\<lparr>player := p, computer := c,
                                    current_turn := current_turn g1 + 1\<rparr>, inp1, gen1))))))"


text \<open>The body of the loop of \<open>Game.simulate_game\<close>, on the two players and the generator.\<close>

definition simulate_turn ::
    "strategy \<Rightarrow> strategy \<Rightarrow> player \<times> player \<times> rng \<Rightarrow> py_error + (player \<times> player \<times> rng)" where
  "simulate_turn strategy1 strategy2 st =
     (case st of (player1, player2, gen) \<Rightarrow>
        (case play strategy1 gen (numbers player1) (numbers player2) of
           Inl e \<Rightarrow> Inl e
         | Inr (player1_choice, gen1) \<Rightarrow>
             (case play strategy2 gen1 (numbers player2) (numbers player1) of
                Inl e \<Rightarrow> Inl e
              | Inr (player2_choice, gen2) \<Rightarrow>
                  (case update_game_state player1_choice player2_choice player1 player2 of
                     Inl e \<Rightarrow> Inl e
                   | Inr (p1, p2) \<Rightarrow> Inr (p1, p2, gen2)))))"

text \<open>
  \<open>Game.simulate_game\<close>: two strategies are selected, two fresh players carry their
  names, the turns \<open>range(1, self.total_turns + 1)\<close> are run and the verdict is given.
\<close>

definition simulate_game ::
    "game \<Rightarrow> stdin \<Rightarrow> rng \<Rightarrow> py_error + (player \<times> player \<times> verdict)" where
  "simulate_game g inp gen =
     (case select_simulation_strategies g inp of
        Inl e \<Rightarrow> Inl e
      | Inr (strategy1, strategy2, inp1) \<Rightarrow>
          (case for_each [1..total_turns g] (\<lambda>turn. simulate_turn strategy1 strategy2)
                  (Player (strategy_name strategy1), Player (strategy_name strategy2), gen) of
             Inl e \<Rightarrow> Inl e
           | Inr (player1, player2, gen1) \<Rightarrow>
               Inr (player1, player2, end_game player1 player2)))"

text \<open>
  The invariant of the turns of \<open>Game.play\<close>: the human's numbers are pairwise different,
  both hands hold \<open>n\<close> numbers and a strategy has been selected.
\<close>

definition play_inv :: "game \<Rightarrow> nat \<Rightarrow> bool" where
  "play_inv g n \<longleftrightarrow>
     distinct (numbers (player g)) \<and> length (numbers (player g)) = n \<and>
     length (numbers (computer g)) = n \<and> computer_strategy g \<noteq> None"

section \<open>Properties of the built-ins\<close>

text \<open>On a non-empty list the scans of \<open>max\<close> and \<open>min\<close> find the greatest and the least element.\<close>

lemma foldl_max_Max:
  "foldl (\<lambda>m y. if y > m then y else m) (x::int) xs = Max (insert x (set xs))"
proof (induction xs arbitrary: x)
  case Nil
  show ?case by simp
next
  case (Cons a xs)
  let ?f = "\<lambda>m y::int. if y > m then y else m"
  have both: "Max (insert x (set (a # xs))) = max x (Max (insert a (set xs)))"
    by simp
  show ?case
  proof (cases "a > x")
    case True
    have "a \<le> Max (insert a (set xs))"
      by simp
    with True have "x \<le> Max (insert a (set xs))"
      by linarith
    then have "max x (Max (insert a (set xs))) = Max (insert a (set xs))"
      by (rule max_absorb2)
    moreover have "foldl ?f x (a # xs) = foldl ?f a xs"
      using True by simp
    ultimately show ?thesis
      using Cons.IH [of a] both by presburger
  next
    case False
    have "insert x (set (a # xs)) = insert a (insert x (set xs))"
      by auto
    then have "Max (insert x (set (a # xs))) = max a (Max (insert x (set xs)))"
      by simp
    moreover have "x \<le> Max (insert x (set xs))"
      by simp
    with False have "a \<le> Max (insert x (set xs))"
      by linarith
    then have "max a (Max (insert x (set xs))) = Max (insert x (set xs))"
      by (rule max_absorb2)
    moreover have "foldl ?f x (a # xs) = foldl ?f x xs"
      using False by simp
    ultimately show ?thesis
      using Cons.IH [of x] by presburger
  qed
qed

lemma foldl_min_Min:
  "foldl (\<lambda>m y. if y < m then y else m) (x::int) xs = Min (insert x (set xs))"
proof (induction xs arbitrary: x)
  case Nil
  show ?case by simp
next
  case (Cons a xs)
  let ?f = "\<lambda>m y::int. if y < m then y else m"
  have both: "Min (insert x (set (a # xs))) = min x (Min (insert a (set xs)))"
    by simp
  show ?case
  proof (cases "a < x")
    case True
    have "Min (insert a (set xs)) \<le> a"
      by simp
    with True have "Min (insert a (set xs)) \<le> x"
      by linarith
    then have "min x (Min (insert a (set xs))) = Min (insert a (set xs))"
      by (rule min_absorb2)
    moreover have "foldl ?f x (a # xs) = foldl ?f a xs"
      using True by simp
    ultimately show ?thesis
      using Cons.IH [of a] both by presburger
  next
    case False
    have "insert x (set (a # xs)) = insert a (insert x (set xs))"
      by auto
    then have "Min (insert x (set (a # xs))) = min a (Min (insert x (set xs)))"
      by simp
    moreover have "Min (insert x (set xs)) \<le> x"
      by simp
    with False have "Min (insert x (set xs)) \<le> a"
      by linarith
    then have "min a (Min (insert x (set xs))) = Min (insert x (set xs))"
      by (rule min_absorb2)
    moreover have "foldl ?f x (a # xs) = foldl ?f x xs"
      using False by simp
    ultimately show ?thesis
      using Cons.IH [of x] by presburger
  qed
qed

lemma py_max_Max: "xs \<noteq> [] \<Longrightarrow> py_max xs = Inr (Max (set xs))"
  by (cases xs) (simp_all add: foldl_max_Max)

lemma py_min_Min: "xs \<noteq> [] \<Longrightarrow> py_min xs = Inr (Min (set xs))"
  by (cases xs) (simp_all add: foldl_min_Min)

text \<open>\<open>list.remove\<close> succeeds exactly on an element of the list, and then deletes its first occurrence.\<close>

lemma list_remove_in: "x \<in> set xs \<Longrightarrow> list_remove xs x = Inr (remove1 x xs)"
  by (induction xs) auto

lemma list_remove_notin: "x \<notin> set xs \<Longrightarrow> list_remove xs x = Inl ValueError"
  by (induction xs) auto

lemma remove_number_in:
  "n \<in> set (numbers p) \<Longrightarrow>
     remove_number p n = Inr (True, p\<lparr>numbers := remove1 n (numbers p)\<rparr>)"
  by (simp add: remove_number_def list_remove_in)

lemma remove_number_notin: "n \<notin> set (numbers p) \<Longrightarrow> remove_number p n = Inr (False, p)"
  by (simp add: remove_number_def)

lemma count_list_remove1_same:
  "n \<in> set xs \<Longrightarrow> count_list (remove1 n xs) n + 1 = count_list xs n"
  by (induction xs) auto

lemma count_list_remove1_other: "m \<noteq> n \<Longrightarrow> count_list (remove1 n xs) m = count_list xs m"
  by (induction xs) auto

lemma length_remove1_in: "n \<in> set xs \<Longrightarrow> length (remove1 n xs) + 1 = length xs"
  by (induction xs) auto

section \<open>The hand\<close>

text \<open>
  Claim C10. \<open>Player.remove_number(n)\<close> never raises. When \<open>n\<close> is among the player's
  numbers it returns \<open>True\<close> and the numbers lose the first occurrence of \<open>n\<close>: the count
  of \<open>n\<close> drops by one, the count of every other number stays and the list is one
  shorter; name and score are untouched. When \<open>n\<close> is absent it returns \<open>False\<close> and the
  player is unchanged.
\<close>

theorem remove_number_spec:
  "(n \<in> set (numbers p) \<longrightarrow>
      remove_number p n = Inr (True, p\<lparr>numbers := remove1 n (numbers p)\<rparr>) \<and>
      count_list (remove1 n (numbers p)) n + 1 = count_list (numbers p) n \<and>
      (\<forall>m. m \<noteq> n \<longrightarrow> count_list (remove1 n (numbers p)) m = count_list (numbers p) m) \<and>
      length (remove1 n (numbers p)) + 1 = length (numbers p)) \<and>
   (n \<notin> set (numbers p) \<longrightarrow> remove_number p n = Inr (False, p)) \<and>
   (\<forall>e. remove_number p n \<noteq> Inl e)"
proof (cases "n \<in> set (numbers p)")
  case True
  have removed: "remove_number p n = Inr (True, p\<lparr>numbers := remove1 n (numbers p)\<rparr>)"
    by (rule remove_number_in [OF True])
  moreover have "count_list (remove1 n (numbers p)) n + 1 = count_list (numbers p) n"
    by (rule count_list_remove1_same [OF True])
  moreover have "\<forall>m. m \<noteq> n \<longrightarrow> count_list (remove1 n (numbers p)) m = count_list (numbers p) m"
    by (simp add: count_list_remove1_other)
  moreover have "length (remove1 n (numbers p)) + 1 = length (numbers p)"
    by (rule length_remove1_in [OF True])
  moreover have "\<forall>e. remove_number p n \<noteq> Inl e"
    using removed by simp
  ultimately show ?thesis
    using True by blast
next
  case False
  then show ?thesis
    by (simp add: remove_number_notin)
qed

text \<open>The initial hand \<open>list(range(1, 14))\<close>, written out.\<close>

lemma range_1_14: "[1..13] = [1, 2, 3, 4, 5, 6, 7, 8, 9, 10, 11, 12, 13]"
  by (simp add: upto_rec1)

text \<open>Removing 7, then the absent 14, from a fresh hand.\<close>

theorem remove_number_spec_witness:
  "remove_number (Player ''You'') 7 =
     Inr (True, \<lparr>name = ''You'', score = 0, numbers = [1, 2, 3, 4, 5, 6, 8, 9, 10, 11, 12, 13]\<rparr>) \<and>
   remove_number (Player ''You'') 14 = Inr (False, Player ''You'')"
  using remove_number_spec [of 7 "Player ''You''"] remove_number_spec [of 14 "Player ''You''"]
  by (simp add: Player_def range_1_14)

section \<open>The strategies\<close>

text \<open>
  Claim C1. \<open>StrategicPlay.play\<close> on a non-empty own list: with no opponent numbers it
  returns the greatest own number; otherwise, with \<open>opponent_highest\<close> the greatest
  opponent number and the candidates the own numbers strictly above it, it returns the
  least candidate when there is one and the least own number when there is none. On
  the three examples of the specification it returns 7, 1 and 8.
\<close>

theorem StrategicPlay_play_spec:
  "(own \<noteq> [] \<longrightarrow>
      StrategicPlay_play own opp =
        Inr (if opp = [] then Max (set own)
             else (let opponent_highest = Max (set opp);
                       candidates = {x \<in> set own. x > opponent_highest}
                   in if candidates \<noteq> {} then Min candidates else Min (set own)))) \<and>
   StrategicPlay_play [3, 7, 9] [5, 6] = Inr 7 \<and>
   StrategicPlay_play [1, 2, 3] [9, 10] = Inr 1 \<and>
   StrategicPlay_play [4, 8] [] = Inr 8"
proof -
  have general: "StrategicPlay_play own opp =
        Inr (if opp = [] then Max (set own)
             else (let opponent_highest = Max (set opp);
                       candidates = {x \<in> set own. x > opponent_highest}
                   in if candidates \<noteq> {} then Min candidates else Min (set own)))"
    if own: "own \<noteq> []"
  proof (cases "opp = []")
    case True
    then show ?thesis
      using own by (simp add: StrategicPlay_play_def py_max_Max)
  next
    case False
    define h where "h = Max (set opp)"
    define w where "w = filter (\<lambda>card. card > h) own"
    define cands where "cands = {x \<in> set own. x > h}"
    have set_w: "set w = cands"
      unfolding w_def cands_def by auto
    have code: "StrategicPlay_play own opp = (if w \<noteq> [] then py_min w else py_min own)"
      using False unfolding w_def h_def
      by (simp add: StrategicPlay_play_def py_max_Max Let_def del: Max_less_iff)
    have spec: "(if opp = [] then Max (set own)
             else (let opponent_highest = Max (set opp);
                       candidates = {x \<in> set own. x > opponent_highest}
                   in if candidates \<noteq> {} then Min candidates else Min (set own)))
          = (if cands \<noteq> {} then Min cands else Min (set own))"
      using False unfolding cands_def h_def by (simp add: Let_def del: Max_less_iff)
    have same_test: "w \<noteq> [] \<longleftrightarrow> cands \<noteq> {}"
      using set_w by auto
    show ?thesis
    proof (cases "w = []")
      case True
      then show ?thesis
        using code spec same_test own by (simp add: py_min_Min)
    next
      case nonempty: False
      then have "py_min w = Inr (Min cands)"
        using py_min_Min [of w] set_w by simp
      then show ?thesis
        using code spec same_test nonempty by simp
    qed
  qed
  have "StrategicPlay_play [3, 7, 9] [5, 6] = Inr 7"
    by (simp add: StrategicPlay_play_def)
  moreover have "StrategicPlay_play [1, 2, 3] [9, 10] = Inr 1"
    by (simp add: StrategicPlay_play_def)
  moreover have "StrategicPlay_play [4, 8] [] = Inr 8"
    by (simp add: StrategicPlay_play_def)
  ultimately show ?thesis
    using general by blast
qed

text \<open>The general statement at own numbers 3, 7, 9 against 5, 6: the candidates are 7 and 9.\<close>

theorem StrategicPlay_play_spec_witness:
  "[3, 7, 9] \<noteq> ([] :: int list) \<and> StrategicPlay_play [3, 7, 9] [5, 6] = Inr 7"
proof -
  have cands: "{x \<in> set [3, 7, 9 :: int]. Max (set [5, 6]) < x} = {7, 9}"
    by auto
  have ne: "[3, 7, 9] \<noteq> ([] :: int list)"
    by simp
  have "StrategicPlay_play [3, 7, 9] [5, 6] =
        Inr (let opponent_highest = Max (set [5, 6]);
                 candidates = {x \<in> set [3, 7, 9]. x > opponent_highest}
             in if candidates \<noteq> {} then Min candidates else Min (set [3, 7, 9]))"
    using StrategicPlay_play_spec [of "[3, 7, 9]" "[5, 6]"] ne by simp
  then have "StrategicPlay_play [3, 7, 9] [5, 6] = Inr 7"
    unfolding Let_def cands by simp
  with ne show ?thesis
    by blast
qed

text \<open>Each strategy picks from the own numbers when there are any.\<close>

lemma random_choice_in:
  "seq \<noteq> [] \<Longrightarrow> \<exists>c gen'. random_choice gen seq = Inr (c, gen') \<and> c \<in> set seq"
  by (simp add: random_choice_def)

lemma Max_set_in: "xs \<noteq> [] \<Longrightarrow> Max (set xs) \<in> set xs"
  using Max_in [of "set xs"] by simp

lemma Min_set_in: "xs \<noteq> [] \<Longrightarrow> Min (set xs) \<in> set xs"
  using Min_in [of "set xs"] by simp

lemma StrategicPlay_play_in:
  assumes "own \<noteq> []"
  shows "\<exists>c. StrategicPlay_play own opp = Inr c \<and> c \<in> set own"
proof (cases "opp = []")
  case True
  then show ?thesis
    using assms by (simp add: StrategicPlay_play_def py_max_Max Max_set_in)
next
  case False
  define w where "w = filter (\<lambda>card. card > Max (set opp)) own"
  have code: "StrategicPlay_play own opp = (if w \<noteq> [] then py_min w else py_min own)"
    using False unfolding w_def
    by (simp add: StrategicPlay_play_def py_max_Max Let_def del: Max_less_iff)
  have sub: "set w \<subseteq> set own"
    unfolding w_def by auto
  show ?thesis
  proof (cases "w = []")
    case True
    then show ?thesis
      using code assms by (simp add: py_min_Min Min_set_in)
  next
    case nonempty: False
    then have "py_min w = Inr (Min (set w))" "Min (set w) \<in> set w"
      by (simp_all add: py_min_Min Min_set_in)
    then show ?thesis
      using code nonempty sub by auto
  qed
qed

lemma play_picks_own:
  assumes "own \<noteq> []"
  shows "\<exists>c gen'. play s gen own opp = Inr (c, gen') \<and> c \<in> set own"
proof (cases s)
  case RandomStrategy
  then show ?thesis
    using random_choice_in [OF assms] by (simp add: RandomStrategy_play_def)
next
  case HighCardStrategy
  then show ?thesis
    using assms by (simp add: HighCardStrategy_play_def with_rng_def py_max_Max Max_set_in)
next
  case LowCardStrategy
  then show ?thesis
    using assms by (simp add: LowCardStrategy_play_def with_rng_def py_min_Min Min_set_in)
next
  case StrategicPlay
  then show ?thesis
    using StrategicPlay_play_in [OF assms, of opp] by (auto simp: with_rng_def)
qed

text \<open>
  Claim C2. For each of the four strategies and every non-empty list of own numbers,
  whatever the opponent's numbers and the state of the random generator, \<open>play\<close>
  returns a number, and that number is one of the own numbers.
\<close>

theorem play_in_own:
  assumes "own \<noteq> []"
  shows "\<exists>c gen'. play s gen own opp = Inr (c, gen') \<and> c \<in> set own"
  using assms by (rule play_picks_own)

text \<open>The random strategy on the hand 2, 5, 11.\<close>

theorem play_in_own_witness:
  "[2, 5, 11] \<noteq> ([] :: int list) \<and>
   (\<exists>c gen'. play RandomStrategy Suc [2, 5, 11] [4] = Inr (c, gen') \<and> c \<in> set [2, 5, 11])"
proof -
  have ne: "[2, 5, 11] \<noteq> ([] :: int list)"
    by simp
  from play_in_own [OF ne, of RandomStrategy Suc "[4]"] ne show ?thesis
    by blast
qed

text \<open>
  Claim C7. On a non-empty list of own numbers \<open>HighCardStrategy.play\<close> returns the
  greatest and \<open>LowCardStrategy.play\<close> the least of them. Every strategy but the random
  one is deterministic: the outcome of \<open>play\<close> (a number or an exception) is the same
  for any two states of the random generator, so it depends on the two lists alone, and
  the generator is left as it was.
\<close>

theorem deterministic_strategies:
  "(own \<noteq> [] \<longrightarrow>
      HighCardStrategy_play own opp = Inr (Max (set own)) \<and>
      LowCardStrategy_play own opp = Inr (Min (set own))) \<and>
   (s \<noteq> RandomStrategy \<longrightarrow>
      played (play s gen1 own opp) = played (play s gen2 own opp) \<and>
      (\<forall>c gen'. play s gen1 own opp = Inr (c, gen') \<longrightarrow> gen' = gen1))"
  by (cases s)
    (auto simp: HighCardStrategy_play_def LowCardStrategy_play_def py_max_Max py_min_Min
      played_def with_rng_def split: sum.splits)

text \<open>The hand 4, 9, 2 against 1, under two different generators.\<close>

theorem deterministic_strategies_witness:
  "[4, 9, 2] \<noteq> ([] :: int list) \<and> StrategicPlay \<noteq> RandomStrategy \<and>
   HighCardStrategy_play [4, 9, 2] [1] = Inr 9 \<and> LowCardStrategy_play [4, 9, 2] [1] = Inr 2 \<and>
   played (play StrategicPlay Suc [4, 9, 2] [1]) = played (play StrategicPlay id [4, 9, 2] [1])"
  using deterministic_strategies [of "[4, 9, 2]" "[1]" StrategicPlay Suc id]
  by simp

text \<open>
  Claim C6, as stated, fails: on an empty list of own numbers the highest-card strategy
  ends in the \<open>ValueError\<close> of the built-in \<open>max\<close>, not in an \<open>InvalidState\<close> condition,
  and the random strategy ends in a different exception, \<open>IndexError\<close>.
\<close>

theorem empty_own_no_InvalidState:
  "played (play HighCardStrategy Suc [] [5, 6]) = Inl ValueError \<and>
   played (play HighCardStrategy Suc [] [5, 6]) \<noteq> Inl InvalidState \<and>
   played (play RandomStrategy Suc [] [5, 6]) = Inl IndexError"
  by (simp add: played_def with_rng_def HighCardStrategy_play_def RandomStrategy_play_def
      random_choice_def)

text \<open>
  Claim C6, amended. On an empty list of own numbers no strategy returns a number:
  the random strategy raises \<open>IndexError\<close> (from \<open>random.choice\<close>) and the other three
  raise \<open>ValueError\<close> (from \<open>max\<close> or \<open>min\<close>), whatever the opponent's numbers.
\<close>

theorem play_empty_own:
  "played (play s gen [] opp) = Inl (if s = RandomStrategy then IndexError else ValueError)"
  by (cases s)
    (simp_all add: played_def with_rng_def HighCardStrategy_play_def LowCardStrategy_play_def
      RandomStrategy_play_def StrategicPlay_play_def random_choice_def Let_def
      py_max_Max)

section \<open>The round engine\<close>

text \<open>
  \<open>remove_number\<close> and \<open>_update_game_state\<close> in closed form: the flag tells whether the
  number was there, and removing an absent number changes nothing.
\<close>

lemma remove_number_total:
  "remove_number p n = Inr (n \<in> set (numbers p), p\<lparr>numbers := remove1 n (numbers p)\<rparr>)"
  by (cases "n \<in> set (numbers p)") (simp_all add: remove_number_in remove_number_notin remove1_idem)

lemma update_game_state_eq:
  "update_game_state c1 c2 p1 p2 =
     Inr (p1\<lparr>score := score p1 + (if c1 > c2 then 1 else 0), numbers := remove1 c1 (numbers p1)\<rparr>,
          p2\<lparr>score := score p2 + (if c2 > c1 then 1 else 0), numbers := remove1 c2 (numbers p2)\<rparr>)"
  by (simp add: update_game_state_def remove_number_total)

text \<open>
  Claim C3. For every pair of played numbers and every two players,
  \<open>_update_game_state\<close> returns; when the first number is greater the first score grows
  by exactly 1 and the second score stays, when the second number is greater the second
  score grows by exactly 1 and the first stays, and when they are equal both scores
  stay. The names are untouched, each list of numbers is the old one without the first
  occurrence of the played number, and nothing but score and numbers differs between
  a player before and after.
\<close>

theorem update_game_state_scores:
  "\<exists>p1' p2'. update_game_state c1 c2 p1 p2 = Inr (p1', p2') \<and>
     (c1 > c2 \<longrightarrow> score p1' = score p1 + 1 \<and> score p2' = score p2) \<and>
     (c2 > c1 \<longrightarrow> score p2' = score p2 + 1 \<and> score p1' = score p1) \<and>
     (c1 = c2 \<longrightarrow> score p1' = score p1 \<and> score p2' = score p2) \<and>
     name p1' = name p1 \<and> name p2' = name p2 \<and>
     numbers p1' = remove1 c1 (numbers p1) \<and> numbers p2' = remove1 c2 (numbers p2) \<and>
     p1' = p1\<lparr>score := score p1', numbers := numbers p1'\<rparr> \<and>
     p2' = p2\<lparr>score := score p2', numbers := numbers p2'\<rparr>"
  by (simp add: update_game_state_eq)

text \<open>The three outcomes on fresh hands: 10 against 3, 3 against 10 and 7 against 7.\<close>

theorem update_game_state_scores_witness:
  "update_game_state 10 3 (Player ''A'') (Player ''B'') =
     Inr (\<lparr>name = ''A'', score = 1, numbers = [1, 2, 3, 4, 5, 6, 7, 8, 9, 11, 12, 13]\<rparr>,
          \<lparr>name = ''B'', score = 0, numbers = [1, 2, 4, 5, 6, 7, 8, 9, 10, 11, 12, 13]\<rparr>) \<and>
   update_game_state 3 10 (Player ''A'') (Player ''B'') =
     Inr (\<lparr>name = ''A'', score = 0, numbers = [1, 2, 4, 5, 6, 7, 8, 9, 10, 11, 12, 13]\<rparr>,
          \<lparr>name = ''B'', score = 1, numbers = [1, 2, 3, 4, 5, 6, 7, 8, 9, 11, 12, 13]\<rparr>) \<and>
   update_game_state 7 7 (Player ''A'') (Player ''B'') =
     Inr (\<lparr>name = ''A'', score = 0, numbers = [1, 2, 3, 4, 5, 6, 8, 9, 10, 11, 12, 13]\<rparr>,
          \<lparr>name = ''B'', score = 0, numbers = [1, 2, 3, 4, 5, 6, 8, 9, 10, 11, 12, 13]\<rparr>)"
  using update_game_state_scores [of 10 3 "Player ''A''" "Player ''B''"]
    update_game_state_scores [of 3 10 "Player ''A''" "Player ''B''"]
    update_game_state_scores [of 7 7 "Player ''A''" "Player ''B''"]
  by (auto simp: Player_def range_1_14)

text \<open>
  Claim C4. When each played number is in its player's hand, \<open>_update_game_state\<close>
  returns with both hands exactly one number shorter and one occurrence of the played
  number gone from each, whatever the outcome of the comparison. On fresh hands the tie
  7 against 7 leaves both scores at 0 and takes 7 out of both hands.
\<close>

theorem update_game_state_removes:
  "(c1 \<in> set (numbers p1) \<and> c2 \<in> set (numbers p2) \<longrightarrow>
     (\<exists>p1' p2'. update_game_state c1 c2 p1 p2 = Inr (p1', p2') \<and>
        length (numbers p1') + 1 = length (numbers p1) \<and>
        length (numbers p2') + 1 = length (numbers p2) \<and>
        count_list (numbers p1') c1 + 1 = count_list (numbers p1) c1 \<and>
        count_list (numbers p2') c2 + 1 = count_list (numbers p2) c2)) \<and>
   update_game_state 7 7 (Player a) (Player b) =
     Inr (\<lparr>name = a, score = 0, numbers = [1, 2, 3, 4, 5, 6, 8, 9, 10, 11, 12, 13]\<rparr>,
          \<lparr>name = b, score = 0, numbers = [1, 2, 3, 4, 5, 6, 8, 9, 10, 11, 12, 13]\<rparr>)"
proof -
  have "update_game_state 7 7 (Player a) (Player b) =
     Inr (\<lparr>name = a, score = 0, numbers = [1, 2, 3, 4, 5, 6, 8, 9, 10, 11, 12, 13]\<rparr>,
          \<lparr>name = b, score = 0, numbers = [1, 2, 3, 4, 5, 6, 8, 9, 10, 11, 12, 13]\<rparr>)"
    by (simp add: update_game_state_eq Player_def range_1_14)
  moreover have "length (remove1 c1 (numbers p1)) + 1 = length (numbers p1)"
    "count_list (remove1 c1 (numbers p1)) c1 + 1 = count_list (numbers p1) c1"
    if "c1 \<in> set (numbers p1)"
    using that by (simp_all only: length_remove1_in count_list_remove1_same)
  moreover have "length (remove1 c2 (numbers p2)) + 1 = length (numbers p2)"
    "count_list (remove1 c2 (numbers p2)) c2 + 1 = count_list (numbers p2) c2"
    if "c2 \<in> set (numbers p2)"
    using that by (simp_all only: length_remove1_in count_list_remove1_same)
  ultimately show ?thesis
    by (simp add: update_game_state_eq)
qed

text \<open>5 against 9 on fresh hands, a turn the second player wins: both hands drop to 12.\<close>

theorem update_game_state_removes_witness:
  "(5 \<in> set (numbers (Player ''A'')) \<and> 9 \<in> set (numbers (Player ''B''))) \<and>
   (\<exists>p1' p2'. update_game_state 5 9 (Player ''A'') (Player ''B'') = Inr (p1', p2') \<and>
        length (numbers p1') = 12 \<and> length (numbers p2') = 12)"
proof -
  have pre: "5 \<in> set (numbers (Player ''A'')) \<and> 9 \<in> set (numbers (Player ''B''))"
    by (simp add: Player_def range_1_14)
  have len: "length (numbers (Player ''A'')) = 13" "length (numbers (Player ''B'')) = 13"
    by (simp_all add: Player_def range_1_14)
  from update_game_state_removes [of 5 "Player ''A''" 9 "Player ''B''"] pre
  obtain p1' p2' where "update_game_state 5 9 (Player ''A'') (Player ''B'') = Inr (p1', p2')"
    "length (numbers p1') + 1 = length (numbers (Player ''A''))"
    "length (numbers p2') + 1 = length (numbers (Player ''B''))"
    by blast
  with len pre show ?thesis
    by auto
qed

section \<open>The match\<close>

text \<open>A loop over one more value runs the body once more at the end.\<close>

lemma for_each_snoc:
  "for_each (xs @ [x]) body s =
     (case for_each xs body s of Inl e \<Rightarrow> Inl e | Inr s' \<Rightarrow> body x s')"
  by (induction xs arbitrary: s) (auto split: sum.splits)

lemma upto_1_Suc: "[1..int (Suc k)] = [1..int k] @ [int k + 1]"
  using upto_rec2 [of 1 "int k + 1"] by (simp add: add.commute)



subsection \<open>Highest card against lowest card\<close>

text \<open>On a run of consecutive numbers the greatest is the last and the least is the first.\<close>

lemma py_max_upto: "1 \<le> n \<Longrightarrow> py_max [1..n] = Inr n"
proof -
  assume n: "1 \<le> n"
  then have ne: "[1..n] \<noteq> []"
    by simp
  have "Max (set [1..n]) = n"
    using n by (intro Max_eqI) auto
  with py_max_Max [OF ne] show ?thesis
    by simp
qed

lemma py_min_upto: "m \<le> n \<Longrightarrow> py_min [m..n] = Inr m"
proof -
  assume mn: "m \<le> n"
  then have ne: "[m..n] \<noteq> []"
    by simp
  have "Min (set [m..n]) = m"
    using mn by (intro Min_eqI) auto
  with py_min_Min [OF ne] show ?thesis
    by simp
qed

lemma remove1_upto_last: "1 \<le> n \<Longrightarrow> remove1 n [1..n] = [1..n - 1]"
proof -
  assume "1 \<le> n"
  then have "[1..n] = [1..n - 1] @ [n]"
    by (rule upto_rec2)
  moreover have "n \<notin> set [1..n - 1]"
    by simp
  ultimately show ?thesis
    by (simp add: remove1_append)
qed

lemma remove1_upto_first: "m \<le> n \<Longrightarrow> remove1 m [m..n] = [m + 1..n]"
  by (simp add: upto_rec1)

text \<open>
  After \<open>k\<close> turns of highest against lowest the first hand is \<open>1..13 - k\<close> and the second
  is \<open>k + 1..13\<close>; the first player has won the first six turns and the second player
  every turn after the seventh.
\<close>

lemma high_low_turn:
  assumes "k < 13"
  shows "simulate_turn HighCardStrategy LowCardStrategy
           (\<lparr>name = a, score = min (int k) 6, numbers = [1..13 - int k]\<rparr>,
            \<lparr>name = b, score = max 0 (int k - 7), numbers = [int k + 1..13]\<rparr>, gen) =
         Inr (\<lparr>name = a, score = min (int (Suc k)) 6, numbers = [1..13 - int (Suc k)]\<rparr>,
              \<lparr>name = b, score = max 0 (int (Suc k) - 7), numbers = [int (Suc k) + 1..13]\<rparr>, gen)"
proof -
  have 1: "py_max [1..13 - int k] = Inr (13 - int k)"
    using assms by (intro py_max_upto) simp
  have 2: "py_min [int k + 1..13] = Inr (int k + 1)"
    using assms by (intro py_min_upto) simp
  have 3: "remove1 (13 - int k) [1..13 - int k] = [1..13 - int (Suc k)]"
    using assms remove1_upto_last [of "13 - int k"] by (simp add: algebra_simps)
  have 4: "remove1 (int k + 1) [int k + 1..13] = [int (Suc k) + 1..13]"
    using assms remove1_upto_first [of "int k + 1" 13] by (simp add: algebra_simps)
  show ?thesis
    using assms
    by (simp add: simulate_turn_def HighCardStrategy_play_def LowCardStrategy_play_def
        with_rng_def 1 2 update_game_state_eq 3 4)
qed

lemma high_low_after:
  "k \<le> 13 \<Longrightarrow>
     for_each [1..int k] (\<lambda>turn. simulate_turn HighCardStrategy LowCardStrategy)
       (Player a, Player b, gen) =
     Inr (\<lparr>name = a, score = min (int k) 6, numbers = [1..13 - int k]\<rparr>,
          \<lparr>name = b, score = max 0 (int k - 7), numbers = [int k + 1..13]\<rparr>, gen)"
proof (induction k)
  case 0
  show ?case
    by (simp add: Player_def)
next
  case (Suc k)
  then have "k < 13" "k \<le> 13"
    by simp_all
  then show ?case
    using Suc.IH high_low_turn [of k a b gen]
    by (simp only: upto_1_Suc for_each_snoc sum.case prod.case)
qed


text \<open>
  Claim C8. A simulated match of the highest-card strategy (key 2) against the
  lowest-card strategy (key 3) ends, for every state of the random generator, with
  both hands empty, the score 6 to 6 and the tie verdict. After \<open>k < 13\<close> turns the
  scores are \<open>min k 6\<close> and \<open>max 0 (k - 7)\<close>, and turn \<open>k + 1\<close> pairs the first player's
  \<open>14 - (k + 1)\<close> with the second player's \<open>k + 1\<close>: the first player wins turns 1 to 6,
  turn 7 is a tie, the second player wins turns 8 to 13.
\<close>

theorem high_vs_low:
  "simulate_game Game (''2'' # ''3'' # rest) gen =
     Inr (\<lparr>name = ''High Card'', score = 6, numbers = []\<rparr>,
          \<lparr>name = ''Low Card'', score = 6, numbers = []\<rparr>, TieGame) \<and>
   (\<forall>k<13. \<exists>p1 p2.
      for_each [1..int k] (\<lambda>turn. simulate_turn HighCardStrategy LowCardStrategy)
        (Player ''High Card'', Player ''Low Card'', gen) = Inr (p1, p2, gen) \<and>
      HighCardStrategy_play (numbers p1) (numbers p2) = Inr (14 - (int k + 1)) \<and>
      LowCardStrategy_play (numbers p2) (numbers p1) = Inr (int k + 1) \<and>
      score p1 = min (int k) 6 \<and> score p2 = max 0 (int k - 7))"
proof (intro conjI allI impI)
  have sel: "select_simulation_strategies Game (''2'' # ''3'' # rest) =
      Inr (HighCardStrategy, LowCardStrategy, rest)"
    by (simp add: select_simulation_strategies_def Game_def strategies_getitem_def)
  have turns: "total_turns Game = 13"
    by (simp add: Game_def)
  have full: "for_each [1..13] (\<lambda>turn. simulate_turn HighCardStrategy LowCardStrategy)
       (Player ''High Card'', Player ''Low Card'', gen) =
     Inr (\<lparr>name = ''High Card'', score = 6, numbers = []\<rparr>,
          \<lparr>name = ''Low Card'', score = 6, numbers = []\<rparr>, gen)"
    using high_low_after [of 13 "''High Card''" "''Low Card''" gen] by simp
  show "simulate_game Game (''2'' # ''3'' # rest) gen =
     Inr (\<lparr>name = ''High Card'', score = 6, numbers = []\<rparr>,
          \<lparr>name = ''Low Card'', score = 6, numbers = []\<rparr>, TieGame)"
    unfolding simulate_game_def sel turns
    by (simp add: full end_game_def)
next
  fix k :: nat
  assume k: "k < 13"
  then have after: "for_each [1..int k] (\<lambda>turn. simulate_turn HighCardStrategy LowCardStrategy)
       (Player ''High Card'', Player ''Low Card'', gen) =
     Inr (\<lparr>name = ''High Card'', score = min (int k) 6, numbers = [1..13 - int k]\<rparr>,
          \<lparr>name = ''Low Card'', score = max 0 (int k - 7), numbers = [int k + 1..13]\<rparr>, gen)"
    by (intro high_low_after) simp
  have 1: "py_max [1..13 - int k] = Inr (14 - (int k + 1))"
    using k py_max_upto [of "13 - int k"] by simp
  have 2: "py_min [int k + 1..13] = Inr (int k + 1)"
    using k by (intro py_min_upto) simp
  show "\<exists>p1 p2.
      for_each [1..int k] (\<lambda>turn. simulate_turn HighCardStrategy LowCardStrategy)
        (Player ''High Card'', Player ''Low Card'', gen) = Inr (p1, p2, gen) \<and>
      HighCardStrategy_play (numbers p1) (numbers p2) = Inr (14 - (int k + 1)) \<and>
      LowCardStrategy_play (numbers p2) (numbers p1) = Inr (int k + 1) \<and>
      score p1 = min (int k) 6 \<and> score p2 = max 0 (int k - 7)"
    unfolding after using 1 2
    by (simp add: HighCardStrategy_play_def LowCardStrategy_play_def)
qed

text \<open>The whole match, and the state before turn 7, where 7 meets 7 at 6 to 0.\<close>

theorem high_vs_low_witness:
  "simulate_game Game [''2'', ''3''] Suc =
     Inr (\<lparr>name = ''High Card'', score = 6, numbers = []\<rparr>,
          \<lparr>name = ''Low Card'', score = 6, numbers = []\<rparr>, TieGame) \<and>
   (\<exists>p1 p2.
      for_each [1..int 6] (\<lambda>turn. simulate_turn HighCardStrategy LowCardStrategy)
        (Player ''High Card'', Player ''Low Card'', Suc) = Inr (p1, p2, Suc) \<and>
      HighCardStrategy_play (numbers p1) (numbers p2) = Inr 7 \<and>
      LowCardStrategy_play (numbers p2) (numbers p1) = Inr 7 \<and>
      score p1 = 6 \<and> score p2 = 0)"
  using high_vs_low [of "[]" Suc] by (auto dest!: spec [of _ 6])

subsection \<open>The interactive match\<close>

text \<open>
  \<open>_get_player_choice\<close> either runs out of input or returns one of the human's numbers,
  already taken out of the human's hand. A first line that converts to a number of the
  hand is accepted at once.
\<close>

lemma get_player_choice_cases:
  "get_player_choice py_int g inp = Inl EOFError \<or>
   (\<exists>c inp'. c \<in> set (numbers (player g)) \<and>
      get_player_choice py_int g inp =
        Inr (c, g\<lparr>player := (player g)\<lparr>numbers := remove1 c (numbers (player g))\<rparr>\<rparr>, inp'))"
proof (induction inp)
  case Nil
  show ?case by simp
next
  case (Cons line rest)
  show ?case
  proof (cases "py_int line")
    case None
    then show ?thesis
      using Cons.IH by simp
  next
    case (Some choice)
    show ?thesis
    proof (cases "choice \<in> set (numbers (player g))")
      case True
      then show ?thesis
        using Some by (simp add: remove_number_total)
    next
      case False
      then show ?thesis
        using Some Cons.IH by (simp add: remove_number_total)
    qed
  qed
qed


text \<open>
  One interactive turn once the human's number \<open>c\<close> has been read: the number is no more
  in the hand that the strategy is given as the opponent's numbers, the strategy picks
  one of the computer's numbers, and the turn returns; its second removal of \<open>c\<close> finds
  nothing to remove.
\<close>

lemma play_turn_after_choice:
  assumes inv: "play_inv g n" and pos: "0 < n"
    and choice: "get_player_choice py_int g inp = Inr (c, g1, inp')"
  shows "c \<in> set (numbers (player g)) \<and> c \<notin> set (remove1 c (numbers (player g))) \<and>
    g1 = g\<lparr>player := (player g)\<lparr>numbers := remove1 c (numbers (player g))\<rparr>\<rparr> \<and>
    (\<exists>s cc gen'. computer_strategy g = Some s \<and> cc \<in> set (numbers (computer g)) \<and>
       play s gen (numbers (computer g)) (remove1 c (numbers (player g))) = Inr (cc, gen') \<and>
       play_turn py_int (g, inp, gen) =
         Inr (g\<lparr>player := (player g)\<lparr>score := score (player g) + (if c > cc then 1 else 0),
                                     numbers := remove1 c (numbers (player g))\<rparr>,
                 computer := (computer g)\<lparr>score := score (computer g) + (if cc > c then 1 else 0),
                                         numbers := remove1 cc (numbers (computer g))\<rparr>,
                 current_turn := current_turn g + 1\<rparr>, inp', gen'))"
proof -
  from inv obtain s where s: "computer_strategy g = Some s"
    by (auto simp: play_inv_def)
  let ?p = "(player g)\<lparr>numbers := remove1 c (numbers (player g))\<rparr>"
  have c: "c \<in> set (numbers (player g))" and g1: "g1 = g\<lparr>player := ?p\<rparr>"
    using get_player_choice_cases [of py_int g inp] choice by auto
  have gone: "c \<notin> set (remove1 c (numbers (player g)))"
    using inv by (simp add: play_inv_def)
  have "numbers (computer g) \<noteq> []"
    using inv pos by (auto simp: play_inv_def)
  from play_picks_own [OF this, of s gen "remove1 c (numbers (player g))"]
  obtain cc gen' where cc:
    "play s gen (numbers (computer g)) (remove1 c (numbers (player g))) = Inr (cc, gen')"
    "cc \<in> set (numbers (computer g))"
    by blast
  have "play_turn py_int (g, inp, gen) =
      Inr (g\<lparr>player := (player g)\<lparr>score := score (player g) + (if c > cc then 1 else 0),
                                     numbers := remove1 c (numbers (player g))\<rparr>,
              computer := (computer g)\<lparr>score := score (computer g) + (if cc > c then 1 else 0),
                                      numbers := remove1 cc (numbers (computer g))\<rparr>,
              current_turn := current_turn g + 1\<rparr>, inp', gen')"
    using gone by (simp add: play_turn_def choice g1 s cc update_game_state_eq remove1_idem)
  with c gone g1 s cc show ?thesis
    by blast
qed

text \<open>So a turn either meets the end of the input or keeps the invariant with one number less.\<close>

lemma play_turn_cases:
  assumes inv: "play_inv g n" and pos: "0 < n"
  shows "play_turn py_int (g, inp, gen) = Inl EOFError \<or>
    (\<exists>g' inp' gen'. play_turn py_int (g, inp, gen) = Inr (g', inp', gen') \<and>
       play_inv g' (n - 1) \<and> current_turn g' = current_turn g + 1 \<and>
       total_turns g' = total_turns g \<and> computer_strategy g' = computer_strategy g)"
proof -
  consider (eof) "get_player_choice py_int g inp = Inl EOFError"
    | (ok) c g1 inp' where "get_player_choice py_int g inp = Inr (c, g1, inp')"
    using get_player_choice_cases [of py_int g inp] by blast
  then show ?thesis
  proof cases
    case eof
    then show ?thesis
      by (simp add: play_turn_def)
  next
    case ok
    from play_turn_after_choice [OF inv pos ok, of gen]
    obtain cc gen' where c: "c \<in> set (numbers (player g))"
      and cc: "cc \<in> set (numbers (computer g))"
      and step: "play_turn py_int (g, inp, gen) =
         Inr (g\<lparr>player := (player g)\<lparr>score := score (player g) + (if c > cc then 1 else 0),
                                     numbers := remove1 c (numbers (player g))\<rparr>,
                 computer := (computer g)\<lparr>score := score (computer g) + (if cc > c then 1 else 0),
                                         numbers := remove1 cc (numbers (computer g))\<rparr>,
                 current_turn := current_turn g + 1\<rparr>, inp', gen')"
      by blast
    have "length (remove1 c (numbers (player g))) = n - 1"
      "length (remove1 cc (numbers (computer g))) = n - 1"
      using inv c cc length_remove1_in [of c "numbers (player g)"]
        length_remove1_in [of cc "numbers (computer g)"]
      by (auto simp: play_inv_def)
    then show ?thesis
      using inv step by (simp add: play_inv_def)
  qed
qed

lemma play_turns_cases:
  "play_inv g n \<Longrightarrow> length ts \<le> n \<Longrightarrow>
     for_each ts (\<lambda>_. play_turn py_int) (g, inp, gen) = Inl EOFError \<or>
     (\<exists>g' inp' gen'. for_each ts (\<lambda>_. play_turn py_int) (g, inp, gen) = Inr (g', inp', gen') \<and>
        play_inv g' (n - length ts) \<and> current_turn g' = current_turn g + int (length ts) \<and>
        total_turns g' = total_turns g \<and> computer_strategy g' = computer_strategy g)"
proof (induction ts arbitrary: g n inp gen)
  case Nil
  then show ?case by simp
next
  case (Cons t ts)
  then have pos: "0 < n"
    by auto
  from play_turn_cases [OF Cons.prems(1) pos, of py_int inp gen]
  show ?case
  proof (elim disjE exE conjE)
    assume "play_turn py_int (g, inp, gen) = Inl EOFError"
    then show ?thesis by simp
  next
    fix g1 inp1 gen1
    assume step: "play_turn py_int (g, inp, gen) = Inr (g1, inp1, gen1)"
      and inv1: "play_inv g1 (n - 1)" and turn1: "current_turn g1 = current_turn g + 1"
      and tot1: "total_turns g1 = total_turns g"
      and strat1: "computer_strategy g1 = computer_strategy g"
    have "length ts \<le> n - 1"
      using Cons.prems(2) by auto
    from Cons.IH [OF inv1 this, of inp1 gen1] step turn1 tot1 strat1
    show ?thesis
      by auto
  qed
qed


subsection \<open>Whole matches\<close>

text \<open>A fresh game with a strategy selected satisfies the invariant with 13 numbers.\<close>

lemma Game_selected_inv: "play_inv (Game\<lparr>computer_strategy := Some s\<rparr>) 13"
  by (simp add: play_inv_def Game_def Player_def range_1_14)












text \<open>
  Claim C9. In \<open>Game.play\<close>, on any of the 13 turns (after \<open>k < 13\<close> turns from the
  start, with strategy \<open>s\<close> selected), once \<open>_get_player_choice\<close> has returned the
  human's number \<open>c\<close>: \<open>c\<close> was in the human's hand and has been taken out of it by
  \<open>_get_player_choice\<close> itself, the computer's hand and strategy are as before, and the
  strategy is then called with the computer's numbers and with the human's numbers
  without \<open>c\<close> as the opponent's numbers. The turn returns; the human's hand after it is
  the one the strategy saw, because the removal of \<open>c\<close> in \<open>_update_game_state\<close> finds
  no \<open>c\<close> and returns \<open>False\<close>.
\<close>

theorem human_number_gone:
  "k < 13 \<and>
   for_each [0..int k - 1] (\<lambda>_. play_turn py_int)
     (Game\<lparr>computer_strategy := Some s\<rparr>, inp, gen) = Inr (g, inp1, gen1) \<and>
   get_player_choice py_int g inp1 = Inr (c, g1, inp2) \<longrightarrow>
     c \<in> set (numbers (player g)) \<and>
     numbers (player g1) = remove1 c (numbers (player g)) \<and>
     c \<notin> set (numbers (player g1)) \<and>
     computer g1 = computer g \<and> computer_strategy g1 = Some s \<and>
     (\<exists>cc gen2 g2.
        play s gen1 (numbers (computer g1)) (numbers (player g1)) = Inr (cc, gen2) \<and>
        play_turn py_int (g, inp1, gen1) = Inr (g2, inp2, gen2) \<and>
        numbers (player g2) = numbers (player g1) \<and>
        numbers (computer g2) = remove1 cc (numbers (computer g1))) \<and>
     (\<forall>p. numbers p = numbers (player g1) \<longrightarrow> remove_number p c = Inr (False, p))"
proof (intro impI, elim conjE)
  assume k: "k < 13"
    and reach: "for_each [0..int k - 1] (\<lambda>_. play_turn py_int)
     (Game\<lparr>computer_strategy := Some s\<rparr>, inp, gen) = Inr (g, inp1, gen1)"
    and choice: "get_player_choice py_int g inp1 = Inr (c, g1, inp2)"
  have "length [0..int k - 1] \<le> 13"
    using k by simp
  from play_turns_cases [OF Game_selected_inv this, of py_int s inp gen] reach
  have inv: "play_inv g (13 - k)" and s: "computer_strategy g = Some s"
    by auto
  have pos: "0 < 13 - k"
    using k by simp
  from play_turn_after_choice [OF inv pos choice, of gen1] s
  obtain cc gen2 where c: "c \<in> set (numbers (player g))"
    and gone: "c \<notin> set (remove1 c (numbers (player g)))"
    and g1: "g1 = g\<lparr>player := (player g)\<lparr>numbers := remove1 c (numbers (player g))\<rparr>\<rparr>"
    and cc: "play s gen1 (numbers (computer g)) (remove1 c (numbers (player g))) = Inr (cc, gen2)"
    and step: "play_turn py_int (g, inp1, gen1) =
         Inr (g\<lparr>player := (player g)\<lparr>score := score (player g) + (if c > cc then 1 else 0),
                                     numbers := remove1 c (numbers (player g))\<rparr>,
                 computer := (computer g)\<lparr>score := score (computer g) + (if cc > c then 1 else 0),
                                         numbers := remove1 cc (numbers (computer g))\<rparr>,
                 current_turn := current_turn g + 1\<rparr>, inp2, gen2)"
    by auto
  have noop: "\<forall>p. numbers p = numbers (player g1) \<longrightarrow> remove_number p c = Inr (False, p)"
    using gone by (simp add: g1 remove_number_notin)
  show "c \<in> set (numbers (player g)) \<and>
     numbers (player g1) = remove1 c (numbers (player g)) \<and>
     c \<notin> set (numbers (player g1)) \<and>
     computer g1 = computer g \<and> computer_strategy g1 = Some s \<and>
     (\<exists>cc gen2 g2.
        play s gen1 (numbers (computer g1)) (numbers (player g1)) = Inr (cc, gen2) \<and>
        play_turn py_int (g, inp1, gen1) = Inr (g2, inp2, gen2) \<and>
        numbers (player g2) = numbers (player g1) \<and>
        numbers (computer g2) = remove1 cc (numbers (computer g1))) \<and>
     (\<forall>p. numbers p = numbers (player g1) \<longrightarrow> remove_number p c = Inr (False, p))"
    using c gone s cc step noop by (simp add: g1)
qed

text \<open>
  Against the highest-card strategy the human plays 3, then types \<open>x\<close>, the spent 3 and
  at last 9: the strategy sees the human's hand without 3 and 9 and plays 12.
\<close>

theorem human_number_gone_witness:
  "(1 :: nat) < 13 \<and>
   for_each [0..int 1 - 1] (\<lambda>_. play_turn (map_of [(''3'', 3), (''9'', 9)]))
     (Game\<lparr>computer_strategy := Some HighCardStrategy\<rparr>, [''3'', ''x'', ''3'', ''9''], Suc) =
     Inr (Game\<lparr>player := \<lparr>name = ''You'', score = 0,
                           numbers = [1, 2, 4, 5, 6, 7, 8, 9, 10, 11, 12, 13]\<rparr>,
               computer := \<lparr>name = ''Computer'', score = 1,
                             numbers = [1, 2, 3, 4, 5, 6, 7, 8, 9, 10, 11, 12]\<rparr>,
               current_turn := 2, computer_strategy := Some HighCardStrategy\<rparr>,
          [''x'', ''3'', ''9''], Suc) \<and>
   get_player_choice (map_of [(''3'', 3), (''9'', 9)])
     (Game\<lparr>player := \<lparr>name = ''You'', score = 0,
                       numbers = [1, 2, 4, 5, 6, 7, 8, 9, 10, 11, 12, 13]\<rparr>,
           computer := \<lparr>name = ''Computer'', score = 1,
                         numbers = [1, 2, 3, 4, 5, 6, 7, 8, 9, 10, 11, 12]\<rparr>,
           current_turn := 2, computer_strategy := Some HighCardStrategy\<rparr>)
     [''x'', ''3'', ''9''] =
     Inr (9,
          Game\<lparr>player := \<lparr>name = ''You'', score = 0,
                           numbers = [1, 2, 4, 5, 6, 7, 8, 10, 11, 12, 13]\<rparr>,
               computer := \<lparr>name = ''Computer'', score = 1,
                             numbers = [1, 2, 3, 4, 5, 6, 7, 8, 9, 10, 11, 12]\<rparr>,
               current_turn := 2, computer_strategy := Some HighCardStrategy\<rparr>,
          []) \<and>
   9 \<notin> set [1, 2, 4, 5, 6, 7, 8, 10, 11, 12, 13 :: int] \<and>
   (\<exists>gen2 g2.
      play HighCardStrategy Suc [1, 2, 3, 4, 5, 6, 7, 8, 9, 10, 11, 12]
        [1, 2, 4, 5, 6, 7, 8, 10, 11, 12, 13] = Inr (12, gen2) \<and>
      play_turn (map_of [(''3'', 3), (''9'', 9)])
        (Game\<lparr>player := \<lparr>name = ''You'', score = 0,
                          numbers = [1, 2, 4, 5, 6, 7, 8, 9, 10, 11, 12, 13]\<rparr>,
              computer := \<lparr>name = ''Computer'', score = 1,
                            numbers = [1, 2, 3, 4, 5, 6, 7, 8, 9, 10, 11, 12]\<rparr>,
              current_turn := 2, computer_strategy := Some HighCardStrategy\<rparr>,
         [''x'', ''3'', ''9''], Suc) = Inr (g2, [], gen2) \<and>
      numbers (player g2) = [1, 2, 4, 5, 6, 7, 8, 10, 11, 12, 13])"
proof -
  let ?py_int = "map_of [(''3'', 3), (''9'', 9 :: int)]"
  let ?g = "Game\<lparr>player := \<lparr>name = ''You'', score = 0,
                           numbers = [1, 2, 4, 5, 6, 7, 8, 9, 10, 11, 12, 13]\<rparr>,
               computer := \<lparr>name = ''Computer'', score = 1,
                             numbers = [1, 2, 3, 4, 5, 6, 7, 8, 9, 10, 11, 12]\<rparr>,
               current_turn := 2, computer_strategy := Some HighCardStrategy\<rparr>"
  let ?g1 = "Game\<lparr>player := \<lparr>name = ''You'', score = 0,
                           numbers = [1, 2, 4, 5, 6, 7, 8, 10, 11, 12, 13]\<rparr>,
               computer := \<lparr>name = ''Computer'', score = 1,
                             numbers = [1, 2, 3, 4, 5, 6, 7, 8, 9, 10, 11, 12]\<rparr>,
               current_turn := 2, computer_strategy := Some HighCardStrategy\<rparr>"
  have k: "(1 :: nat) < 13"
    by simp
  have reach: "for_each [0..int 1 - 1] (\<lambda>_. play_turn ?py_int)
     (Game\<lparr>computer_strategy := Some HighCardStrategy\<rparr>, [''3'', ''x'', ''3'', ''9''], Suc) =
     Inr (?g, [''x'', ''3'', ''9''], Suc)"
    by (simp add: play_turn_def Game_def Player_def range_1_14 remove_number_total
        HighCardStrategy_play_def with_rng_def update_game_state_eq)
  have choice: "get_player_choice ?py_int ?g [''x'', ''3'', ''9''] = Inr (9, ?g1, [])"
    by (simp add: remove_number_total)
  from human_number_gone [of 1 ?py_int HighCardStrategy "[''3'', ''x'', ''3'', ''9'']" Suc
      ?g "[''x'', ''3'', ''9'']" Suc 9 ?g1 "[]"] k reach choice
  have "9 \<notin> set (numbers (player ?g1)) \<and>
     (\<exists>cc gen2 g2.
        play HighCardStrategy Suc (numbers (computer ?g1)) (numbers (player ?g1)) = Inr (cc, gen2) \<and>
        play_turn ?py_int (?g, [''x'', ''3'', ''9''], Suc) = Inr (g2, [], gen2) \<and>
        numbers (player g2) = numbers (player ?g1) \<and>
        numbers (computer g2) = remove1 cc (numbers (computer ?g1)))"
    by blast
  then have "9 \<notin> set [1, 2, 4, 5, 6, 7, 8, 10, 11, 12, 13 :: int] \<and>
   (\<exists>gen2 g2.
      play HighCardStrategy Suc [1, 2, 3, 4, 5, 6, 7, 8, 9, 10, 11, 12]
        [1, 2, 4, 5, 6, 7, 8, 10, 11, 12, 13] = Inr (12, gen2) \<and>
      play_turn ?py_int (?g, [''x'', ''3'', ''9''], Suc) = Inr (g2, [], gen2) \<and>
      numbers (player g2) = [1, 2, 4, 5, 6, 7, 8, 10, 11, 12, 13])"
    by (simp add: HighCardStrategy_play_def with_rng_def) blast
  with k reach choice show ?thesis
    by blast
qed

end
